theory Spec2Isabelle
  imports Complex_Main "HOL-Library.Word" "HOL-Library.Log_Nat"
begin

section \<open>Errors\<close>

text \<open>
  Every exception that \<^verbatim>\<open>cover.py\<close> or one of the library calls it makes can raise is a
  value. \<open>ValueError\<close> carries its message, so that the error raised by
  \<^verbatim>\<open>concatenate_images_horizontally\<close> itself is told apart from the ones raised inside
  Pillow.
\<close>

datatype py_error =
    ValueError string
  | IndexError
  | AssertionError
  | DivisionByZero
  | InvalidOperation
  | RenderError

definition bind_res :: "py_error + 'a \<Rightarrow> ('a \<Rightarrow> py_error + 'b) \<Rightarrow> py_error + 'b" where
  "bind_res m f = (case m of Inl e \<Rightarrow> Inl e | Inr v \<Rightarrow> f v)"

section \<open>Raster images and the Pillow primitives used by the program\<close>

text \<open>
  An image is its size and its pixels. Only the pixels at \<open>0 \<le> x < width\<close>,
  \<open>0 \<le> y < height\<close> are part of the image; \<open>same_image\<close> compares two images on exactly
  those. All images are taken in mode \<^verbatim>\<open>RGB\<close>, the mode of every image the program creates
  with \<^verbatim>\<open>Image.new\<close>; Pillow's conversion between modes on paste is not modelled.
\<close>

type_synonym pixel = "8 word \<times> 8 word \<times> 8 word"

record image =
  width :: nat
  height :: nat
  px :: "int \<Rightarrow> int \<Rightarrow> pixel"

type_synonym box = "int \<times> int \<times> int \<times> int"

definition black :: pixel where
  "black = (0, 0, 0)"

definition in_image :: "image \<Rightarrow> int \<Rightarrow> int \<Rightarrow> bool" where
  "in_image img x y = (0 \<le> x \<and> x < int (width img) \<and> 0 \<le> y \<and> y < int (height img))"

definition same_image :: "image \<Rightarrow> image \<Rightarrow> bool" where
  "same_image a b =
     (width a = width b \<and> height a = height b \<and>
      (\<forall>y \<in> set [0..<height a]. \<forall>x \<in> set [0..<width a].
         px a (int x) (int y) = px b (int x) (int y)))"

text \<open>\<^verbatim>\<open>Image.new("RGB", size)\<close>: a black image; a negative size is refused.\<close>

definition image_new :: "int \<times> int \<Rightarrow> py_error + image" where
  "image_new sz =
     (case sz of (w, h) \<Rightarrow>
        if w < 0 \<or> h < 0 then Inl (ValueError ''Width and height must be >= 0'')
        else Inr \<lparr>width = nat w, height = nat h, px = (\<lambda>x y. black)\<rparr>)"

text \<open>
  \<^verbatim>\<open>Image.crop(box)\<close>: Pillow refuses a box whose right edge is left of its left edge or
  whose lower edge is above its upper edge. Any other box is accepted, also one that reaches
  beyond the image: the part outside the image is filled with zeros.
\<close>

definition crop :: "image \<Rightarrow> box \<Rightarrow> py_error + image" where
  "crop img b =
     (case b of (l, u, r, d) \<Rightarrow>
        if r < l then Inl (ValueError ''Coordinate right is less than left'')
        else if d < u then Inl (ValueError ''Coordinate lower is less than upper'')
        else Inr \<lparr>width = nat (r - l), height = nat (d - u),
                  px = (\<lambda>x y. if in_image img (l + x) (u + y) then px img (l + x) (u + y)
                                else black)\<rparr>)"

text \<open>
  \<^verbatim>\<open>Image.resize(size)\<close>: a request for the size the image already has returns a copy;
  otherwise a target size below one pixel in either direction is refused, and the new
  image is resampled from the old one. The resampling filter computes the new pixels in
  the C library; it is the parameter \<open>rs\<close>, about which nothing is assumed.
\<close>

type_synonym resampler = "image \<Rightarrow> int \<Rightarrow> int \<Rightarrow> int \<Rightarrow> int \<Rightarrow> pixel"

definition resize :: "resampler \<Rightarrow> image \<Rightarrow> int \<times> int \<Rightarrow> py_error + image" where
  "resize rs img sz =
     (case sz of (w, h) \<Rightarrow>
        if int (width img) = w \<and> int (height img) = h then Inr img
        else if w < 1 \<or> h < 1 then Inl (ValueError ''height and width must be > 0'')
        else Inr \<lparr>width = nat w, height = nat h, px = rs img w h\<rparr>)"

text \<open>
  \<^verbatim>\<open>Image.paste(im, (x0, y0))\<close> overwrites the region of the destination that the pasted
  image covers, and \<^verbatim>\<open>Image.paste(color, box)\<close> fills a region with one colour. Both
  change the destination in place: the updated destination is returned.
\<close>

definition paste :: "image \<Rightarrow> image \<Rightarrow> int \<times> int \<Rightarrow> image" where
  "paste dst src pos =
     (case pos of (x0, y0) \<Rightarrow>
        dst\<lparr>px := (\<lambda>x y. if in_image src (x - x0) (y - y0) then px src (x - x0) (y - y0)
                          else px dst x y)\<rparr>)"

definition paste_color :: "image \<Rightarrow> pixel \<Rightarrow> box \<Rightarrow> image" where
  "paste_color dst c b =
     (case b of (l, u, r, d) \<Rightarrow>
        dst\<lparr>px := (\<lambda>x y. if l \<le> x \<and> x < r \<and> u \<le> y \<and> y < d then c else px dst x y)\<rparr>)"

text \<open>
  \<^verbatim>\<open>Image.getpixel((x, y))\<close>: a negative coordinate counts from the far edge, and a
  coordinate that is still outside the image raises \<^verbatim>\<open>IndexError\<close>.
\<close>

definition getpixel :: "image \<Rightarrow> int \<times> int \<Rightarrow> py_error + pixel" where
  "getpixel img pos =
     (case pos of (x, y) \<Rightarrow>
        let x' = (if x < 0 then int (width img) + x else x);
            y' = (if y < 0 then int (height img) + y else y)
        in if in_image img x' y' then Inr (px img x' y') else Inl IndexError)"

section \<open>Horizontal compositor\<close>

text \<open>
  The loop of \<^verbatim>\<open>concatenate_images_horizontally\<close>: the state is the canvas and
  \<^verbatim>\<open>current_width\<close>.
\<close>

fun paste_side_by_side :: "image list \<Rightarrow> image \<Rightarrow> int \<Rightarrow> image" where
  "paste_side_by_side [] canvas current_width = canvas"
| "paste_side_by_side (img # rest) canvas current_width =
     paste_side_by_side rest (paste canvas img (current_width, 0))
       (current_width + int (width img))"

definition height_mismatch :: py_error where
  "height_mismatch =
     ValueError ''All images must have the same height to concatenate horizontally''"

definition concatenate_images_horizontally :: "image list \<Rightarrow> py_error + image" where
  "concatenate_images_horizontally images =
     (let heights = map height images in
      if length (remdups heights) > 1 then Inl height_mismatch
      else
        let total_width = sum_list (map (\<lambda>img. int (width img)) images) in
        case images of
          [] \<Rightarrow> Inl IndexError
        | first # _ \<Rightarrow>
            bind_res (image_new (total_width, int (height first)))
              (\<lambda>concatenated_image. Inr (paste_side_by_side images concatenated_image 0)))"

text \<open>The horizontal position at which the \<open>k\<close>-th image of a list starts.\<close>

definition offset_of :: "image list \<Rightarrow> nat \<Rightarrow> int" where
  "offset_of images k = sum_list (map (\<lambda>img. int (width img)) (take k images))"

section \<open>Panel splitter\<close>

text \<open>
  \<^verbatim>\<open>split_book_cover\<close>: three crops, in the order back, spine, front; the first crop that
  Pillow refuses ends the call.
\<close>

definition back_crop_area :: "image \<Rightarrow> int \<Rightarrow> int \<Rightarrow> box" where
  "back_crop_area img back_width front_width = (0, 0, back_width, int (height img))"

definition spine_crop_area :: "image \<Rightarrow> int \<Rightarrow> int \<Rightarrow> box" where
  "spine_crop_area img back_width front_width =
     (let original_width = int (width img);
          spine_width = original_width - back_width - front_width
      in (back_width, 0, back_width + spine_width, int (height img)))"

definition front_crop_area :: "image \<Rightarrow> int \<Rightarrow> int \<Rightarrow> box" where
  "front_crop_area img back_width front_width =
     (let original_width = int (width img);
          front_offset = original_width - front_width
      in (front_offset, 0, original_width, int (height img)))"

definition split_book_cover ::
  "image \<Rightarrow> int \<Rightarrow> int \<Rightarrow> py_error + (image \<times> image \<times> image)" where
  "split_book_cover img back_width front_width =
     bind_res (crop img (back_crop_area img back_width front_width)) (\<lambda>back_img.
     bind_res (crop img (spine_crop_area img back_width front_width)) (\<lambda>spine_img.
     bind_res (crop img (front_crop_area img back_width front_width)) (\<lambda>front_img.
     Inr (back_img, spine_img, front_img))))"


definition valid_split :: "image \<Rightarrow> int \<Rightarrow> int \<Rightarrow> bool" where
  "valid_split img back_width front_width =
     (0 \<le> back_width \<and> 0 \<le> front_width \<and> back_width + front_width \<le> int (width img))"

section \<open>Border stretcher\<close>

text \<open>
  \<^verbatim>\<open>add_stretched_border\<close>, statement by statement; \<open>w\<close> and \<open>h\<close> are the source's
  \<^verbatim>\<open>width\<close> and \<^verbatim>\<open>height\<close>, and \<open>n0\<close>, \<open>n1\<close>, ... are the successive contents of
  \<^verbatim>\<open>new_image\<close>. The four strips are cropped and resized before the new image is created.
\<close>

definition add_stretched_border :: "resampler \<Rightarrow> image \<Rightarrow> int \<Rightarrow> int \<Rightarrow> py_error + image" where
  "add_stretched_border rs img border_size_px stretch_pixel_width0 =
     (let w = int (width img); h = int (height img);
          stretch_pixel_width = min stretch_pixel_width0 (min w h) in
      bind_res (crop img (0, 0, stretch_pixel_width, h)) (\<lambda>left_strip.
      bind_res (resize rs left_strip (border_size_px, h)) (\<lambda>left_border.
      bind_res (crop img (w - stretch_pixel_width, 0, w, h)) (\<lambda>right_strip.
      bind_res (resize rs right_strip (border_size_px, h)) (\<lambda>right_border.
      bind_res (crop img (0, 0, w, stretch_pixel_width)) (\<lambda>top_strip.
      bind_res (resize rs top_strip (w, border_size_px)) (\<lambda>top_border.
      bind_res (crop img (0, h - stretch_pixel_width, w, h)) (\<lambda>bottom_strip.
      bind_res (resize rs bottom_strip (w, border_size_px)) (\<lambda>bottom_border.
      let new_width = w + 2 * border_size_px;
          new_height = h + 2 * border_size_px in
      bind_res (image_new (new_width, new_height)) (\<lambda>n0.
      let n1 = paste n0 img (border_size_px, border_size_px);
          n2 = paste n1 left_border (0, border_size_px);
          n3 = paste n2 right_border (new_width - border_size_px, border_size_px);
          n4 = paste n3 top_border (border_size_px, 0);
          n5 = paste n4 bottom_border (border_size_px, new_height - border_size_px) in
      bind_res (getpixel img (0, 0)) (\<lambda>top_left.
      let n6 = paste_color n5 top_left (0, 0, border_size_px, border_size_px) in
      bind_res (getpixel img (w - 1, 0)) (\<lambda>top_right.
      let n7 = paste_color n6 top_right
                 (new_width - border_size_px, 0, new_width, border_size_px) in
      bind_res (getpixel img (0, h - 1)) (\<lambda>bottom_left.
      let n8 = paste_color n7 bottom_left
                 (0, new_height - border_size_px, border_size_px, new_height) in
      bind_res (getpixel img (w - 1, h - 1)) (\<lambda>bottom_right.
      Inr (paste_color n8 bottom_right
             (new_width - border_size_px, new_height - border_size_px,
              new_width, new_height))))))))))))))))"

text \<open>One resampling filter, for concrete runs: the nearest source pixel.\<close>

definition nearest :: resampler where
  "nearest img w h x y = px img (x * int (width img) div w) (y * int (height img) div h)"

section \<open>Numbers read from a PDF, and Python's decimal arithmetic\<close>

text \<open>
  pikepdf hands an integer of the PDF over as a Python \<^verbatim>\<open>int\<close> and a real as a
  \<^verbatim>\<open>decimal.Decimal\<close>. A \<^verbatim>\<open>Decimal\<close> is represented by its value, a rational number.
  Arithmetic on two ints is exact; every operation with a \<^verbatim>\<open>Decimal\<close> operand rounds its
  exact result to the 28 significant digits of the default context, ties to even.
  The exponent limits of the context (\<^verbatim>\<open>Emax = 999999\<close>) are not modelled.
\<close>

datatype pynum = PyInt int | PyDecimal rat

fun num_val :: "pynum \<Rightarrow> rat" where
  "num_val (PyInt i) = of_int i"
| "num_val (PyDecimal d) = d"

definition prec :: nat where
  "prec = 28"

text \<open>
  The exponent \<open>e\<close> of the leading digit of a non-zero number:
  \<open>10 ^ e \<le> \<bar>x\<bar>\<close> and \<open>\<bar>x\<bar> < 10 ^ (e + 1)\<close>.
\<close>

definition adjusted :: "rat \<Rightarrow> int" where
  "adjusted x =
     (case quotient_of \<bar>x\<bar> of (p, q) \<Rightarrow>
        let d = int (floorlog 10 (nat p)) - int (floorlog 10 (nat q))
        in if power_int 10 d \<le> \<bar>x\<bar> then d else d - 1)"

definition round_half_even :: "rat \<Rightarrow> int" where
  "round_half_even x =
     (let n = \<lfloor>x\<rfloor>; f = x - of_int n
      in if f < 1 / 2 then n else if 1 / 2 < f then n + 1
         else if even n then n else n + 1)"

definition dec_round :: "rat \<Rightarrow> rat" where
  "dec_round x =
     (if x = 0 then 0
      else let e = adjusted x - (int prec - 1);
               scaled = \<bar>x\<bar> / power_int 10 e
           in sgn x * of_int (round_half_even scaled) * power_int 10 e)"

definition num_add :: "pynum \<Rightarrow> pynum \<Rightarrow> pynum" where
  "num_add a b =
     (case (a, b) of
        (PyInt x, PyInt y) \<Rightarrow> PyInt (x + y)
      | _ \<Rightarrow> PyDecimal (dec_round (num_val a + num_val b)))"

definition num_sub :: "pynum \<Rightarrow> pynum \<Rightarrow> pynum" where
  "num_sub a b =
     (case (a, b) of
        (PyInt x, PyInt y) \<Rightarrow> PyInt (x - y)
      | _ \<Rightarrow> PyDecimal (dec_round (num_val a - num_val b)))"

text \<open>\<^verbatim>\<open>n * d\<close> for an int \<open>n\<close> and a \<^verbatim>\<open>Decimal\<close> \<open>d\<close>.\<close>

definition int_mul_dec :: "int \<Rightarrow> rat \<Rightarrow> pynum" where
  "int_mul_dec n d = PyDecimal (dec_round (of_int n * d))"

text \<open>
  \<^verbatim>\<open>a / Decimal(n)\<close> for an int \<open>n\<close>: the conversion of \<open>n\<close> is exact, a zero divisor
  raises \<^verbatim>\<open>DivisionByZero\<close>, or \<^verbatim>\<open>InvalidOperation\<close> when the dividend is zero too.
\<close>

definition div_by_decimal :: "pynum \<Rightarrow> int \<Rightarrow> py_error + rat" where
  "div_by_decimal a n =
     (if n = 0 then (if num_val a = 0 then Inl InvalidOperation else Inl DivisionByZero)
      else Inr (dec_round (num_val a / of_int n)))"

section \<open>Bleed-box writer\<close>

text \<open>
  A PDF document is its pages; a page has its media box and, once set, its bleed box.
  The files on disk are a map from paths to documents. Saving the image as a PDF at the
  given resolution to a temporary file and opening that file with pikepdf is the
  parameter \<open>render\<close>; the temporary file is gone when the call ends, also on an error.
\<close>

record page =
  MediaBox :: "pynum list"
  bleedbox :: "pynum list option"

record pdf =
  pages :: "page list"

type_synonym files = "string \<Rightarrow> pdf option"

type_synonym renderer = "image \<Rightarrow> int \<Rightarrow> py_error + pdf"

definition item :: "'a list \<Rightarrow> nat \<Rightarrow> py_error + 'a" where
  "item xs i = (if i < length xs then Inr (xs ! i) else Inl IndexError)"

definition py_assert :: "bool \<Rightarrow> py_error + unit" where
  "py_assert b = (if b then Inr () else Inl AssertionError)"

text \<open>
  The body of \<^verbatim>\<open>add_bleed_box\<close> up to the assignment of the bleed box: the document that
  \<^verbatim>\<open>pdf.save\<close> is about to write, or the error that ends the call before.
\<close>

definition bleed_box_document ::
  "pdf \<Rightarrow> int \<Rightarrow> int \<Rightarrow> int \<Rightarrow> int \<Rightarrow> int \<Rightarrow> int \<Rightarrow> py_error + pdf" where
  "bleed_box_document doc full_width_px full_height_px
       left_offset_px bottom_offset_px right_offset_px top_offset_px =
     bind_res (py_assert (length (pages doc) = 1)) (\<lambda>_.
     bind_res (item (pages doc) 0) (\<lambda>pg.
     let media_box = MediaBox pg in
     bind_res (item media_box 2) (\<lambda>m2.
     bind_res (item media_box 0) (\<lambda>m0.
     let media_box_width = num_sub m2 m0 in
     bind_res (item media_box 3) (\<lambda>m3.
     bind_res (item media_box 1) (\<lambda>m1.
     let media_box_height = num_sub m3 m1 in
     bind_res (div_by_decimal media_box_width full_width_px) (\<lambda>unit_per_px.
     bind_res (div_by_decimal media_box_height full_height_px) (\<lambda>other.
     bind_res (py_assert (unit_per_px = other)) (\<lambda>_.
     let bleed_box =
           [num_add m0 (int_mul_dec left_offset_px unit_per_px),
            num_add m1 (int_mul_dec top_offset_px unit_per_px),
            num_sub m2 (int_mul_dec right_offset_px unit_per_px),
            num_sub m3 (int_mul_dec bottom_offset_px unit_per_px)]
     in Inr (doc\<lparr>pages := [pg\<lparr>bleedbox := Some bleed_box\<rparr>]\<rparr>))))))))))"

text \<open>
  \<^verbatim>\<open>add_bleed_box\<close>: the outcome of the call (\<open>None\<close> when it returns, the error when it
  raises) and the files on disk afterwards.
\<close>

definition add_bleed_box ::
  "renderer \<Rightarrow> files \<Rightarrow> image \<Rightarrow> int \<Rightarrow> string \<Rightarrow> int \<Rightarrow> int \<Rightarrow> int \<Rightarrow> int \<Rightarrow> int \<Rightarrow> int
     \<Rightarrow> py_error option \<times> files" where
  "add_bleed_box render fs input_image dpi output_pdf_path full_width_px full_height_px
       left_offset_px bottom_offset_px right_offset_px top_offset_px =
     (case bind_res (render input_image dpi) (\<lambda>doc.
             bleed_box_document doc full_width_px full_height_px
               left_offset_px bottom_offset_px right_offset_px top_offset_px) of
        Inl e \<Rightarrow> (Some e, fs)
      | Inr doc' \<Rightarrow> (None, fs(output_pdf_path \<mapsto> doc')))"

section \<open>Pipeline driver\<close>

text \<open>
  The floating-point constants of \<^verbatim>\<open>main\<close> are taken as the rational numbers they
  denote, and \<^verbatim>\<open>int()\<close> truncates towards zero. \<open>0.125\<close>, \<open>5.5\<close> and \<open>8.5\<close> and their
  products with 300 are binary fractions, so the floating-point products are exact;
  \<open>0.65\<close> is not one, but the double nearest to \<open>0.65 * 300\<close> is \<open>195.0\<close>.
\<close>

definition py_int :: "rat \<Rightarrow> int" where
  "py_int x = (if 0 \<le> x then \<lfloor>x\<rfloor> else \<lceil>x\<rceil>)"

definition dpi :: int where
  "dpi = 300"

definition target_height_in :: rat where
  "target_height_in = 85 / 10"

definition target_width_in :: rat where
  "target_width_in = 11 / 2"

definition target_spine_width :: rat where
  "target_spine_width = 65 / 100"

definition target_cover_width_px :: int where
  "target_cover_width_px = py_int (target_width_in * of_int dpi)"

definition target_height_px :: int where
  "target_height_px = py_int (target_height_in * of_int dpi)"

definition target_spine_width_px :: int where
  "target_spine_width_px = py_int (target_spine_width * of_int dpi)"

definition bleed_size_in :: rat where
  "bleed_size_in = 125 / 1000"

definition bleed_size_px :: int where
  "bleed_size_px = py_int (bleed_size_in * of_int dpi)"

text \<open>The keyword arguments of one \<^verbatim>\<open>add_bleed_box\<close> call of \<^verbatim>\<open>main\<close>.\<close>

record bleed_call =
  output_pdf_path :: string
  full_width_px :: int
  full_height_px :: int
  left_offset_px :: int
  bottom_offset_px :: int
  right_offset_px :: int
  top_offset_px :: int

definition back_call :: bleed_call where
  "back_call =
     \<lparr>output_pdf_path = ''back.pdf'',
      full_width_px = target_cover_width_px + bleed_size_px,
      full_height_px = target_height_px + 2 * bleed_size_px,
      left_offset_px = bleed_size_px,
      bottom_offset_px = bleed_size_px,
      right_offset_px = 0,
      top_offset_px = bleed_size_px\<rparr>"

definition spine_call :: bleed_call where
  "spine_call =
     \<lparr>output_pdf_path = ''spine.pdf'',
      full_width_px = target_spine_width_px,
      full_height_px = target_height_px + 2 * bleed_size_px,
      left_offset_px = 0,
      bottom_offset_px = bleed_size_px,
      right_offset_px = 0,
      top_offset_px = bleed_size_px\<rparr>"

definition front_call :: bleed_call where
  "front_call =
     \<lparr>output_pdf_path = ''front.pdf'',
      full_width_px = target_cover_width_px + bleed_size_px,
      full_height_px = target_height_px + 2 * bleed_size_px,
      left_offset_px = 0,
      bottom_offset_px = bleed_size_px,
      right_offset_px = bleed_size_px,
      top_offset_px = bleed_size_px\<rparr>"

definition call_add_bleed_box ::
  "renderer \<Rightarrow> files \<Rightarrow> image \<Rightarrow> bleed_call \<Rightarrow> py_error option \<times> files" where
  "call_add_bleed_box render fs input_image c =
     add_bleed_box render fs input_image dpi (output_pdf_path c)
       (full_width_px c) (full_height_px c)
       (left_offset_px c) (bottom_offset_px c) (right_offset_px c) (top_offset_px c)"

text \<open>
  The images of \<^verbatim>\<open>main\<close> up to the second split: the three panels with their bleed.
  \<open>img\<close> is the image that \<^verbatim>\<open>Image.open\<close> returned.
\<close>

definition panels_with_bleed ::
  "resampler \<Rightarrow> image \<Rightarrow> py_error + (image \<times> image \<times> image)" where
  "panels_with_bleed rs img =
     bind_res (split_book_cover img 1630 1625) (\<lambda>(back_img, spine_img, front_img).
     let cover_dims = (target_cover_width_px, target_height_px);
         spine_dims = (target_spine_width_px, target_height_px) in
     bind_res (resize rs front_img cover_dims) (\<lambda>front_scaled.
     bind_res (resize rs back_img cover_dims) (\<lambda>back_scaled.
     bind_res (resize rs spine_img spine_dims) (\<lambda>spine_scaled.
     bind_res (concatenate_images_horizontally [back_scaled, spine_scaled, front_scaled])
       (\<lambda>rescaled_all.
     bind_res (add_stretched_border rs rescaled_all bleed_size_px 10) (\<lambda>stretched.
     split_book_cover stretched
       (target_cover_width_px + bleed_size_px) (target_cover_width_px + bleed_size_px)))))))"

text \<open>\<^verbatim>\<open>main\<close>: an error ends the run and leaves the files written so far.\<close>

definition main :: "resampler \<Rightarrow> renderer \<Rightarrow> files \<Rightarrow> image \<Rightarrow> py_error option \<times> files" where
  "main rs render fs img =
     (case panels_with_bleed rs img of
        Inl e \<Rightarrow> (Some e, fs)
      | Inr (back_with_bleed, spine_with_bleed, front_with_bleed) \<Rightarrow>
          (case call_add_bleed_box render fs back_with_bleed back_call of
             (Some e, fs1) \<Rightarrow> (Some e, fs1)
           | (None, fs1) \<Rightarrow>
               (case call_add_bleed_box render fs1 spine_with_bleed spine_call of
                  (Some e, fs2) \<Rightarrow> (Some e, fs2)
                | (None, fs2) \<Rightarrow>
                    call_add_bleed_box render fs2 front_with_bleed front_call)))"

section \<open>Small concrete inputs\<close>

definition two_by_one :: image where
  "two_by_one = \<lparr>width = 2, height = 1, px = (\<lambda>x y. (word_of_int x, 7, 9))\<rparr>"

definition one_by_one :: image where
  "one_by_one = \<lparr>width = 1, height = 1, px = (\<lambda>x y. (5, 5, 5))\<rparr>"

definition one_by_two :: image where
  "one_by_two = \<lparr>width = 1, height = 2, px = (\<lambda>x y. (1, 2, word_of_int y))\<rparr>"

text \<open>
  A page with the media box \<open>[0, 0, 1700, 1133]\<close>, and two renderers: one that always
  yields this single page, one that yields two pages.
\<close>

definition example_page :: page where
  "example_page = \<lparr>MediaBox = [PyInt 0, PyInt 0, PyInt 1700, PyInt 1133], bleedbox = None\<rparr>"

definition example_render :: renderer where
  "example_render img res = Inr \<lparr>pages = [example_page]\<rparr>"

definition two_page_render :: renderer where
  "two_page_render img res = Inr \<lparr>pages = [example_page, example_page]\<rparr>"

section \<open>Properties of the horizontal compositor\<close>

subsection \<open>Auxiliary facts\<close>

lemma remdups_le_one_iff:
  "length (remdups xs) \<le> 1 \<longleftrightarrow> (\<forall>a \<in> set xs. \<forall>b \<in> set xs. a = b)"
  by (simp add: length_remdups_card_conv card_le_Suc0_iff_eq)

lemma remdups_gt_one_iff:
  "1 < length (remdups xs) \<longleftrightarrow> (\<exists>a \<in> set xs. \<exists>b \<in> set xs. a \<noteq> b)"
proof -
  have "1 < length (remdups xs) \<longleftrightarrow> \<not> length (remdups xs) \<le> 1" by linarith
  then show ?thesis unfolding remdups_le_one_iff by blast
qed

lemma width_paste [simp]: "width (paste dst src pos) = width dst"
  and height_paste [simp]: "height (paste dst src pos) = height dst"
  by (simp_all add: paste_def split: prod.splits)

lemma px_paste:
  "px (paste dst src (x0, y0)) x y =
     (if in_image src (x - x0) (y - y0) then px src (x - x0) (y - y0) else px dst x y)"
  by (simp add: paste_def)

lemma size_paste_side_by_side [simp]:
  "width (paste_side_by_side imgs c cw) = width c"
  "height (paste_side_by_side imgs c cw) = height c"
  by (induction imgs c cw rule: paste_side_by_side.induct) simp_all

lemma px_paste_side_by_side_left:
  "x < cw \<Longrightarrow> px (paste_side_by_side imgs c cw) x y = px c x y"
proof (induction imgs c cw rule: paste_side_by_side.induct)
  case (1 canvas current_width)
  then show ?case by simp
next
  case (2 img rest canvas current_width)
  then show ?case by (simp add: px_paste in_image_def)
qed

lemma offset_of_0 [simp]: "offset_of imgs 0 = 0"
  by (simp add: offset_of_def)

lemma offset_of_Cons_Suc [simp]:
  "offset_of (img # rest) (Suc k) = int (width img) + offset_of rest k"
  by (simp add: offset_of_def)

lemma offset_of_Suc:
  "k < length imgs \<Longrightarrow> offset_of imgs (Suc k) = offset_of imgs k + int (width (imgs ! k))"
  by (simp add: offset_of_def take_Suc_conv_app_nth)

lemma offset_of_length:
  "offset_of imgs (length imgs) = sum_list (map (\<lambda>img. int (width img)) imgs)"
  by (simp add: offset_of_def)

lemma px_paste_side_by_side:
  "k < length imgs \<Longrightarrow> in_image (imgs ! k) x y \<Longrightarrow>
   px (paste_side_by_side imgs c cw) (cw + offset_of imgs k + x) y = px (imgs ! k) x y"
proof (induction imgs c cw arbitrary: k rule: paste_side_by_side.induct)
  case (1 canvas current_width)
  then show ?case by simp
next
  case (2 img rest canvas current_width)
  show ?case
  proof (cases k)
    case 0
    with 2 have inside: "in_image img x y" by simp
    then have "current_width + x < current_width + int (width img)"
      by (simp add: in_image_def)
    then have "px (paste_side_by_side (img # rest) canvas current_width) (current_width + x) y
             = px (paste canvas img (current_width, 0)) (current_width + x) y"
      by (simp add: px_paste_side_by_side_left)
    with inside 0 show ?thesis by (simp add: px_paste)
  next
    case (Suc j)
    with 2 have "j < length rest" "in_image (rest ! j) x y" by simp_all
    from "2.IH" [OF this, of ]
    show ?thesis using Suc by (simp add: add.assoc)
  qed
qed

lemma total_width_nonneg: "0 \<le> sum_list (map (\<lambda>img. int (width img)) imgs)"
  by (induction imgs) simp_all

lemma concat_fails_iff:
  assumes "images \<noteq> []"
  shows "concatenate_images_horizontally images = Inl e \<longleftrightarrow>
     e = height_mismatch \<and> 1 < length (remdups (map height images))"
proof -
  from assms obtain i rest where images: "images = i # rest" by (cases images) auto
  show ?thesis
    unfolding images
    using total_width_nonneg [of "i # rest"]
    by (auto simp: concatenate_images_horizontally_def Let_def bind_res_def image_new_def
        split: if_splits)
qed

lemma concat_succeeds:
  assumes "images \<noteq> []" and "\<not> 1 < length (remdups (map height images))"
  shows "concatenate_images_horizontally images =
     Inr (paste_side_by_side images
           \<lparr>width = nat (sum_list (map (\<lambda>img. int (width img)) images)),
            height = height (hd images), px = (\<lambda>x y. black)\<rparr> 0)"
proof -
  from assms obtain i rest where images: "images = i # rest" by (cases images) auto
  show ?thesis
    using assms(2) total_width_nonneg [of "i # rest"]
    unfolding images
    by (simp add: concatenate_images_horizontally_def Let_def bind_res_def image_new_def)
qed

lemma heights_differ_iff:
  "1 < length (remdups (map height images)) \<longleftrightarrow>
     (\<exists>i<length images. \<exists>j<length images. height (images ! i) \<noteq> height (images ! j))"
  (is "?L \<longleftrightarrow> ?R")
proof
  assume ?L
  then obtain a b where a: "a \<in> set (map height images)"
    and b: "b \<in> set (map height images)" and ab: "a \<noteq> b"
    unfolding remdups_gt_one_iff by blast
  from a obtain i where i: "i < length images" "a = height (images ! i)"
    by (auto simp: in_set_conv_nth)
  from b obtain j where j: "j < length images" "b = height (images ! j)"
    by (auto simp: in_set_conv_nth)
  from i j ab show ?R by blast
next
  assume ?R
  then obtain i j where ij: "i < length images" "j < length images"
    "height (images ! i) \<noteq> height (images ! j)"
    by blast
  then have "height (images ! i) \<in> set (map height images)"
    "height (images ! j) \<in> set (map height images)"
    by simp_all
  with ij(3) show ?L
    unfolding remdups_gt_one_iff by blast
qed

subsection \<open>Claims\<close>

text \<open>
  C10. On the empty list the height check passes, since the set of heights is empty, and
  the read of \<^verbatim>\<open>images[0]\<close> then raises \<^verbatim>\<open>IndexError\<close>: the call neither succeeds nor
  reports the height mismatch.
\<close>

theorem concatenate_empty_index_error:
  "concatenate_images_horizontally [] = Inl IndexError
   \<and> concatenate_images_horizontally [] \<noteq> Inl height_mismatch
   \<and> length (remdups (map height ([] :: image list))) = 0"
  by (simp add: concatenate_images_horizontally_def height_mismatch_def)

text \<open>
  C6. On a non-empty list the compositor fails exactly when two of the images differ in
  height; the only failure is the height-mismatch error, and a failing call yields no
  image. A successful call yields an image whose width is the sum of the input widths and
  whose height is the common height; the \<open>k\<close>-th image starts where the one before it ends
  (the first at 0, the last ending at the right edge) and every pixel of it appears
  unchanged at that offset.
\<close>

theorem concatenate_images_horizontally_contract:
  assumes "images \<noteq> []"
  shows "((\<exists>e. concatenate_images_horizontally images = Inl e) \<longleftrightarrow>
            (\<exists>i<length images. \<exists>j<length images.
               height (images ! i) \<noteq> height (images ! j)))
       \<and> (\<forall>e. concatenate_images_horizontally images = Inl e \<longrightarrow>
             e = height_mismatch \<and> (\<forall>out. concatenate_images_horizontally images \<noteq> Inr out))
       \<and> (\<forall>out. concatenate_images_horizontally images = Inr out \<longrightarrow>
             int (width out) = sum_list (map (\<lambda>img. int (width img)) images)
           \<and> (\<forall>k<length images. height (images ! k) = height out)
           \<and> offset_of images 0 = 0
           \<and> (\<forall>k<length images.
                 offset_of images (Suc k) = offset_of images k + int (width (images ! k)))
           \<and> offset_of images (length images) = int (width out)
           \<and> (\<forall>k<length images. \<forall>x y. in_image (images ! k) x y \<longrightarrow>
                 px out (offset_of images k + x) y = px (images ! k) x y))"
proof -
  let ?r = "concatenate_images_horizontally images"
  let ?differ = "\<exists>i<length images. \<exists>j<length images.
               height (images ! i) \<noteq> height (images ! j)"
  have fails_iff: "?r = Inl e \<longleftrightarrow> e = height_mismatch \<and> ?differ" for e
    unfolding concat_fails_iff [OF assms] heights_differ_iff ..
  have fails: "(\<exists>e. ?r = Inl e) \<longleftrightarrow> ?differ"
    using fails_iff by blast
  have only: "\<forall>e. ?r = Inl e \<longrightarrow> e = height_mismatch \<and> (\<forall>out. ?r \<noteq> Inr out)"
  proof (intro allI impI)
    fix e assume e: "?r = Inl e"
    then have "e = height_mismatch" using fails_iff by blast
    moreover have "\<forall>out. ?r \<noteq> Inr out" unfolding e by simp
    ultimately show "e = height_mismatch \<and> (\<forall>out. ?r \<noteq> Inr out)" ..
  qed
  have ok: "int (width out) = sum_list (map (\<lambda>img. int (width img)) images)
           \<and> (\<forall>k<length images. height (images ! k) = height out)
           \<and> offset_of images 0 = 0
           \<and> (\<forall>k<length images.
                 offset_of images (Suc k) = offset_of images k + int (width (images ! k)))
           \<and> offset_of images (length images) = int (width out)
           \<and> (\<forall>k<length images. \<forall>x y. in_image (images ! k) x y \<longrightarrow>
                 px out (offset_of images k + x) y = px (images ! k) x y)"
    if r: "?r = Inr out" for out
  proof -
    have same: "\<not> ?differ"
    proof
      assume ?differ
      then obtain e where "?r = Inl e" using fails by blast
      with r show False by simp
    qed
    then have same': "\<not> 1 < length (remdups (map height images))"
      unfolding heights_differ_iff .
    let ?canvas = "\<lparr>width = nat (sum_list (map (\<lambda>img. int (width img)) images)),
            height = height (hd images), px = (\<lambda>x y. black)\<rparr>"
    have out: "out = paste_side_by_side images ?canvas 0"
      using r concat_succeeds [OF assms same'] by simp
    have w: "int (width out) = sum_list (map (\<lambda>img. int (width img)) images)"
      using total_width_nonneg [of images] unfolding out by simp
    have h0: "height out = height (images ! 0)"
      unfolding out using assms by (simp add: hd_conv_nth)
    have h: "\<forall>k<length images. height (images ! k) = height out"
    proof (intro allI impI)
      fix k assume "k < length images"
      moreover have "0 < length images" using assms by simp
      ultimately have "height (images ! k) = height (images ! 0)"
        using same by blast
      then show "height (images ! k) = height out"
        using h0 by simp
    qed
    have p: "\<forall>k<length images. \<forall>x y. in_image (images ! k) x y \<longrightarrow>
                 px out (offset_of images k + x) y = px (images ! k) x y"
    proof (intro allI impI)
      fix k x y assume "k < length images" "in_image (images ! k) x y"
      from px_paste_side_by_side [OF this, of ?canvas 0]
      show "px out (offset_of images k + x) y = px (images ! k) x y"
        unfolding out by simp
    qed
    have o: "\<forall>k<length images.
                 offset_of images (Suc k) = offset_of images k + int (width (images ! k))"
      by (simp add: offset_of_Suc)
    have l: "offset_of images (length images) = int (width out)"
      using w by (simp add: offset_of_length)
    have z: "offset_of images 0 = 0" by simp
    show ?thesis
      by (rule conjI [OF w conjI [OF h conjI [OF z conjI [OF o conjI [OF l p]]]]])
  qed
  then have ok': "\<forall>out. ?r = Inr out \<longrightarrow>
             int (width out) = sum_list (map (\<lambda>img. int (width img)) images)
           \<and> (\<forall>k<length images. height (images ! k) = height out)
           \<and> offset_of images 0 = 0
           \<and> (\<forall>k<length images.
                 offset_of images (Suc k) = offset_of images k + int (width (images ! k)))
           \<and> offset_of images (length images) = int (width out)
           \<and> (\<forall>k<length images. \<forall>x y. in_image (images ! k) x y \<longrightarrow>
                 px out (offset_of images k + x) y = px (images ! k) x y)"
    by (intro allI impI)
  show ?thesis
    by (rule conjI [OF fails conjI [OF only ok']])
qed

theorem concatenate_images_horizontally_contract_witness:
  "[two_by_one, one_by_one] \<noteq> []
   \<and> (\<exists>out. concatenate_images_horizontally [two_by_one, one_by_one] = Inr out
         \<and> width out = 3 \<and> height out = 1
         \<and> px out 0 0 = (0, 7, 9) \<and> px out 1 0 = (1, 7, 9) \<and> px out 2 0 = (5, 5, 5))
   \<and> concatenate_images_horizontally [two_by_one, one_by_two] = Inl height_mismatch"
proof -
  let ?ok = "[two_by_one, one_by_one]"
  let ?bad = "[two_by_one, one_by_two]"
  have ne: "?ok \<noteq> []" "?bad \<noteq> []" by simp_all
  note good = concatenate_images_horizontally_contract [OF ne(1)]
  note bad = concatenate_images_horizontally_contract [OF ne(2)]
  have "\<not> (\<exists>i<length ?ok. \<exists>j<length ?ok. height (?ok ! i) \<noteq> height (?ok ! j))"
    by (simp add: two_by_one_def one_by_one_def less_Suc_eq nth_Cons')
  with good have "\<not> (\<exists>e. concatenate_images_horizontally ?ok = Inl e)" by blast
  then obtain out where out: "concatenate_images_horizontally ?ok = Inr out"
    by (cases "concatenate_images_horizontally ?ok") auto
  with good have w: "int (width out) = sum_list (map (\<lambda>img. int (width img)) ?ok)"
    and h: "\<forall>k<length ?ok. height (?ok ! k) = height out"
    and p: "\<forall>k<length ?ok. \<forall>x y. in_image (?ok ! k) x y \<longrightarrow>
                 px out (offset_of ?ok k + x) y = px (?ok ! k) x y"
    by blast+
  from w have "width out = 3" by (simp add: two_by_one_def one_by_one_def)
  moreover from h have "height out = 1" by (auto simp: two_by_one_def)
  moreover from p [rule_format, of 0 0 0] have "px out 0 0 = (0, 7, 9)"
    by (simp add: two_by_one_def in_image_def)
  moreover from p [rule_format, of 0 1 0] have "px out 1 0 = (1, 7, 9)"
    by (simp add: two_by_one_def in_image_def)
  moreover from p [rule_format, of 1 0 0] have "px out 2 0 = (5, 5, 5)"
    by (simp add: two_by_one_def one_by_one_def in_image_def offset_of_def)
  moreover
  have "height (?bad ! 0) \<noteq> height (?bad ! 1)"
    by (simp add: two_by_one_def one_by_two_def)
  then have "\<exists>i<length ?bad. \<exists>j<length ?bad. height (?bad ! i) \<noteq> height (?bad ! j)"
    by (intro exI [of _ 0] exI [of _ 1] conjI) simp_all
  with bad obtain e where "concatenate_images_horizontally ?bad = Inl e" by blast
  with bad have "concatenate_images_horizontally ?bad = Inl height_mismatch" by blast
  ultimately show ?thesis using out by simp
qed

section \<open>Properties of the panel splitter\<close>

subsection \<open>Auxiliary facts\<close>

lemma crop_ok:
  "l \<le> r \<Longrightarrow> u \<le> d \<Longrightarrow>
   crop img (l, u, r, d) =
     Inr \<lparr>width = nat (r - l), height = nat (d - u),
          px = (\<lambda>x y. if in_image img (l + x) (u + y) then px img (l + x) (u + y)
                        else black)\<rparr>"
  by (simp add: crop_def)

lemma split_ok:
  assumes "valid_split img bw fw"
  shows "split_book_cover img bw fw =
     Inr (\<lparr>width = nat bw, height = height img,
           px = (\<lambda>x y. if in_image img x y then px img x y else black)\<rparr>,
          \<lparr>width = nat (int (width img) - bw - fw), height = height img,
           px = (\<lambda>x y. if in_image img (bw + x) y then px img (bw + x) y else black)\<rparr>,
          \<lparr>width = nat fw, height = height img,
           px = (\<lambda>x y. if in_image img (int (width img) - fw + x) y
                         then px img (int (width img) - fw + x) y else black)\<rparr>)"
  using assms
  by (simp add: split_book_cover_def valid_split_def back_crop_area_def spine_crop_area_def
      front_crop_area_def crop_ok bind_res_def Let_def diff_right_commute
      cong del: if_weak_cong)



subsection \<open>Claims\<close>

text \<open>
  C2. For a split with \<open>back_width \<ge> 0\<close>, \<open>front_width \<ge> 0\<close> and
  \<open>back_width + front_width \<le> W\<close>, \<^verbatim>\<open>split_book_cover\<close> returns three images of widths
  \<open>back_width\<close>, \<open>W - back_width - front_width\<close> and \<open>front_width\<close>, each of the height of
  the input.
\<close>

theorem split_book_cover_widths:
  assumes "0 \<le> back_width" "0 \<le> front_width" "back_width + front_width \<le> int (width img)"
  shows "\<exists>back_img spine_img front_img.
           split_book_cover img back_width front_width = Inr (back_img, spine_img, front_img)
         \<and> int (width back_img) = back_width
         \<and> int (width spine_img) = int (width img) - back_width - front_width
         \<and> int (width front_img) = front_width
         \<and> height back_img = height img \<and> height spine_img = height img
         \<and> height front_img = height img"
proof -
  from assms have "valid_split img back_width front_width" by (simp add: valid_split_def)
  from split_ok [OF this] assms show ?thesis by simp
qed

theorem split_book_cover_widths_witness:
  "(0::int) \<le> 1 \<and> (0::int) \<le> 0 \<and> 1 + 0 \<le> int (width two_by_one)
   \<and> (\<exists>back_img spine_img front_img.
           split_book_cover two_by_one 1 0 = Inr (back_img, spine_img, front_img)
         \<and> width back_img = 1 \<and> width spine_img = 1 \<and> width front_img = 0
         \<and> height back_img = 1 \<and> height spine_img = 1 \<and> height front_img = 1)"
proof -
  have h: "(0::int) \<le> 1" "(0::int) \<le> 0" "1 + 0 \<le> int (width two_by_one)"
    by (simp_all add: two_by_one_def)
  from split_book_cover_widths [OF h] show ?thesis
    using h by (auto simp: two_by_one_def)
qed



section \<open>Splitting and recomposing\<close>





section \<open>Properties of the border stretcher\<close>

subsection \<open>Auxiliary facts\<close>

lemma size_paste_color [simp]:
  "width (paste_color dst c b) = width dst" "height (paste_color dst c b) = height dst"
  by (simp_all add: paste_color_def split: prod.splits)



lemma resize_zero_width:
  assumes "1 \<le> width img"
  shows "resize rs img (0, h) = Inl (ValueError ''height and width must be > 0'')"
  using assms by (simp add: resize_def)



lemma add_stretched_border_zero:
  assumes "1 \<le> width img" "1 \<le> height img" "1 \<le> stretch_pixel_width"
  shows "add_stretched_border rs img 0 stretch_pixel_width =
           Inl (ValueError ''height and width must be > 0'')"
proof -
  let ?s = "min stretch_pixel_width (min (int (width img)) (int (height img)))"
  from assms have s: "1 \<le> ?s" by simp
  then have c: "crop img (0, 0, ?s, int (height img)) =
      Inr \<lparr>width = nat (?s - 0), height = nat (int (height img) - 0),
          px = (\<lambda>x y. if in_image img (0 + x) (0 + y) then px img (0 + x) (0 + y)
                        else black)\<rparr>"
    by (intro crop_ok) simp_all
  have "1 \<le> width \<lparr>width = nat (?s - 0), height = nat (int (height img) - 0),
          px = (\<lambda>x y. if in_image img (0 + x) (0 + y) then px img (0 + x) (0 + y)
                        else black)\<rparr>"
    using assms by (auto simp: min_def)
  note r = resize_zero_width [OF this, of rs "int (height img)"]
  show ?thesis
    unfolding add_stretched_border_def Let_def c bind_res_def sum.case r ..
qed

subsection \<open>Claims\<close>




text \<open>
  C5. For an image of width and height at least 1 and a stretch width of at least 1,
  \<^verbatim>\<open>add_stretched_border\<close> with a border of 0 pixels returns no image: the first strip
  is at least one pixel wide, its resize to width 0 is refused, and the call ends in that
  \<^verbatim>\<open>ValueError\<close>.
\<close>

theorem add_stretched_border_zero_border_fails:
  assumes "1 \<le> width img" "1 \<le> height img" "1 \<le> stretch_pixel_width"
  shows "add_stretched_border rs img 0 stretch_pixel_width =
           Inl (ValueError ''height and width must be > 0'')"
  using assms by (rule add_stretched_border_zero)

theorem add_stretched_border_zero_border_fails_witness:
  "1 \<le> width one_by_two \<and> 1 \<le> height one_by_two \<and> (1::int) \<le> 1
   \<and> add_stretched_border nearest one_by_two 0 1 =
         Inl (ValueError ''height and width must be > 0'')"
proof -
  have h: "1 \<le> width one_by_two" "1 \<le> height one_by_two" "(1::int) \<le> 1"
    by (simp_all add: one_by_two_def)
  from add_stretched_border_zero_border_fails [OF h, of nearest] h show ?thesis by simp
qed

theorem add_stretched_border_identity_counterexample:
  "add_stretched_border nearest two_by_one 0 1 =
     Inl (ValueError ''height and width must be > 0'')
   \<and> \<not> (\<exists>out. add_stretched_border nearest two_by_one 0 1 = Inr out
            \<and> same_image out two_by_one)"
proof -
  have "add_stretched_border nearest two_by_one 0 1 =
          Inl (ValueError ''height and width must be > 0'')"
    by (rule add_stretched_border_zero) (simp_all add: two_by_one_def)
  then show ?thesis by simp
qed

section \<open>Properties of the bleed-box writer\<close>

subsection \<open>Auxiliary facts\<close>




lemma bleed_box_document_pages:
  assumes "length (pages doc) \<noteq> 1"
  shows "bleed_box_document doc fw fh l b r t = Inl AssertionError"
  using assms by (simp add: bleed_box_document_def py_assert_def bind_res_def)

lemma bleed_box_document_mismatch:
  assumes "pages doc = [pg]" "4 \<le> length (MediaBox pg)"
    and "div_by_decimal (num_sub (MediaBox pg ! 2) (MediaBox pg ! 0)) fw = Inr u"
    and "div_by_decimal (num_sub (MediaBox pg ! 3) (MediaBox pg ! 1)) fh = Inr v"
    and "u \<noteq> v"
  shows "bleed_box_document doc fw fh l b r t = Inl AssertionError"
  using assms by (auto simp: bleed_box_document_def py_assert_def bind_res_def item_def Let_def)


lemma add_bleed_box_Inl:
  assumes "render img res = Inr doc" "bleed_box_document doc fw fh l b r t = Inl e"
  shows "add_bleed_box render fs img res path fw fh l b r t = (Some e, fs)"
  using assms by (simp add: add_bleed_box_def bind_res_def)

lemma add_bleed_box_unchanged:
  "fst (add_bleed_box render fs img res path fw fh l b r t) \<noteq> None \<Longrightarrow>
   snd (add_bleed_box render fs img res path fw fh l b r t) = fs"
  by (auto simp: add_bleed_box_def split: sum.splits)

lemma example_units:
  "div_by_decimal (num_sub (PyInt 1700) (PyInt 0)) 1700 = Inr 1"
  "div_by_decimal (num_sub (PyInt 1133) (PyInt 0)) 1133 = Inr 1"
  "div_by_decimal (num_sub (PyInt 1133) (PyInt 0)) 1000 = Inr (1133 / 1000)"
  by code_simp+



subsection \<open>Claims\<close>



text \<open>
  C7. When the rendered document does not have exactly one page, or when it has one page
  whose two scale factors \<open>(media[2] - media[0]) / Decimal(full_width_px)\<close> and
  \<open>(media[3] - media[1]) / Decimal(full_height_px)\<close> differ, \<^verbatim>\<open>add_bleed_box\<close> ends in an
  \<^verbatim>\<open>AssertionError\<close> and the files on disk are as before the call: nothing is written
  to the output path.
\<close>

theorem add_bleed_box_fatal:
  assumes "render input_image res = Inr doc"
    and "length (pages doc) \<noteq> 1
       \<or> (\<exists>pg u v. pages doc = [pg] \<and> 4 \<le> length (MediaBox pg)
            \<and> div_by_decimal (num_sub (MediaBox pg ! 2) (MediaBox pg ! 0)) fw = Inr u
            \<and> div_by_decimal (num_sub (MediaBox pg ! 3) (MediaBox pg ! 1)) fh = Inr v
            \<and> u \<noteq> v)"
  shows "add_bleed_box render fs input_image res path fw fh
           left_offset bottom_offset right_offset top_offset = (Some AssertionError, fs)"
proof -
  from assms(2)
  have "bleed_box_document doc fw fh left_offset bottom_offset right_offset top_offset
          = Inl AssertionError"
    using bleed_box_document_pages bleed_box_document_mismatch by blast
  with assms(1) show ?thesis by (rule add_bleed_box_Inl)
qed

theorem add_bleed_box_fatal_witness:
  "two_page_render one_by_one 300 = Inr \<lparr>pages = [example_page, example_page]\<rparr>
   \<and> length (pages \<lparr>pages = [example_page, example_page]\<rparr>) \<noteq> 1
   \<and> add_bleed_box two_page_render Map.empty one_by_one 300 ''out.pdf''
         1700 1133 37 37 37 37 = (Some AssertionError, Map.empty)
   \<and> example_render one_by_one 300 = Inr \<lparr>pages = [example_page]\<rparr>
   \<and> add_bleed_box example_render Map.empty one_by_one 300 ''out.pdf''
         1700 1000 37 37 37 37 = (Some AssertionError, Map.empty)"
proof -
  have r2: "two_page_render one_by_one 300 = Inr \<lparr>pages = [example_page, example_page]\<rparr>"
    by (simp add: two_page_render_def)
  have n2: "length (pages \<lparr>pages = [example_page, example_page]\<rparr>) \<noteq> 1
       \<or> (\<exists>pg u v. pages \<lparr>pages = [example_page, example_page]\<rparr> = [pg]
            \<and> 4 \<le> length (MediaBox pg)
            \<and> div_by_decimal (num_sub (MediaBox pg ! 2) (MediaBox pg ! 0)) 1700 = Inr u
            \<and> div_by_decimal (num_sub (MediaBox pg ! 3) (MediaBox pg ! 1)) 1133 = Inr v
            \<and> u \<noteq> v)"
    by simp
  have r1: "example_render one_by_one 300 = Inr \<lparr>pages = [example_page]\<rparr>"
    by (simp add: example_render_def)
  have "pages \<lparr>pages = [example_page]\<rparr> = [example_page]
        \<and> 4 \<le> length (MediaBox example_page)
        \<and> div_by_decimal (num_sub (MediaBox example_page ! 2) (MediaBox example_page ! 0)) 1700
            = Inr 1
        \<and> div_by_decimal (num_sub (MediaBox example_page ! 3) (MediaBox example_page ! 1)) 1000
            = Inr (1133 / 1000)
        \<and> (1::rat) \<noteq> 1133 / 1000"
    by (simp add: example_page_def example_units)
  then have n1: "length (pages \<lparr>pages = [example_page]\<rparr>) \<noteq> 1
       \<or> (\<exists>pg u v. pages \<lparr>pages = [example_page]\<rparr> = [pg]
            \<and> 4 \<le> length (MediaBox pg)
            \<and> div_by_decimal (num_sub (MediaBox pg ! 2) (MediaBox pg ! 0)) 1700 = Inr u
            \<and> div_by_decimal (num_sub (MediaBox pg ! 3) (MediaBox pg ! 1)) 1000 = Inr v
            \<and> u \<noteq> v)"
    by blast
  note two_pages = add_bleed_box_fatal
    [where render = two_page_render and input_image = one_by_one and res = 300
       and doc = "\<lparr>pages = [example_page, example_page]\<rparr>" and fw = 1700 and fh = 1133
       and fs = Map.empty and path = "''out.pdf''" and left_offset = 37
       and bottom_offset = 37 and right_offset = 37 and top_offset = 37, OF r2 n2]
  note mismatch = add_bleed_box_fatal
    [where render = example_render and input_image = one_by_one and res = 300
       and doc = "\<lparr>pages = [example_page]\<rparr>" and fw = 1700 and fh = 1000
       and fs = Map.empty and path = "''out.pdf''" and left_offset = 37
       and bottom_offset = 37 and right_offset = 37 and top_offset = 37, OF r1 n1]
  from two_pages mismatch r1 r2 show ?thesis by simp
qed

section \<open>Properties of the pipeline driver\<close>




end
